theory Spec2Isabelle
  imports Complex_Main "HOL-Library.Char_ord" "HOL-Library.List_Lexorder"
begin

section \<open>The FCC broadband join of \<^verbatim>\<open>src/hf_dataset/join_fcc.py\<close>\<close>

text \<open>
  A pandas DataFrame is modelled as the list of its rows, in row order. The typed columns
  of the source (\<^verbatim>\<open>dtype=str\<close>, \<^verbatim>\<open>dtype="Int32"\<close>) are nullable, so every field
  read from a CSV file is an \<open>option\<close>: \<open>None\<close> is pandas' missing value.
  The nullable Int32 speeds are \<open>int option\<close>: the only arithmetic the program does on
  them is \<^verbatim>\<open>max\<close>, which returns one of its arguments, so no wrap-around can arise.
\<close>

subsection \<open>Constants\<close>

definition NYC_COUNTY_PREFIXES :: "string set" where
  "NYC_COUNTY_PREFIXES = {''36005'', ''36047'', ''36061'', ''36081'', ''36085''}"

definition CHUNK_SIZE :: nat where
  "CHUNK_SIZE = 200000"

subsection \<open>Rows\<close>

text \<open>The five columns \<^verbatim>\<open>usecols\<close> keeps of a source file.\<close>

record location_row =
  brand_name :: "string option"
  location_id :: "string option"
  max_advertised_download_speed :: "int option"
  max_advertised_upload_speed :: "int option"
  block_geoid :: "string option"

text \<open>The six columns \<^verbatim>\<open>process_fcc_file\<close> returns.\<close>

record resolved_row =
  zipcode :: string
  r_brand_name :: "string option"
  r_location_id :: "string option"
  r_download :: "int option"
  r_upload :: "int option"
  tech :: string

type_synonym tract_map = "string \<rightharpoonup> string"

subsection \<open>Step 2: chunked ingestion and geographic filter\<close>

text \<open>
  \<^verbatim>\<open>pd.read_csv(..., chunksize=n)\<close> yields the rows of the file in consecutive windows
  of \<open>n\<close> rows, the last one possibly shorter, and no window for an empty file.
  pandas rejects a chunk size below one, so \<open>n = 0\<close> yields nothing here.
\<close>

function read_csv_chunks :: "nat \<Rightarrow> 'a list \<Rightarrow> 'a list list" where
  "read_csv_chunks n xs =
     (if n = 0 \<or> xs = [] then [] else take n xs # read_csv_chunks n (drop n xs))"
  by pat_completeness auto
termination
  by (relation "measure (\<lambda>(n, xs). length xs)") auto

declare read_csv_chunks.simps [simp del]

text \<open>
  \<^verbatim>\<open>chunk["block_geoid"].str[:5]\<close>: the slice of a missing value is missing, the slice
  of a shorter string is the whole string.
\<close>

definition str_slice :: "nat \<Rightarrow> string option \<Rightarrow> string option" where
  "str_slice k s = map_option (take k) s"

text \<open>\<^verbatim>\<open>.isin(NYC_COUNTY_PREFIXES)\<close>: a missing value is in no set of strings.\<close>

definition isin :: "string option \<Rightarrow> string set \<Rightarrow> bool" where
  "isin v S = (case v of None \<Rightarrow> False | Some s \<Rightarrow> s \<in> S)"

definition county_filter :: "location_row list \<Rightarrow> location_row list" where
  "county_filter chunk = filter (\<lambda>r. isin (str_slice 5 (block_geoid r)) NYC_COUNTY_PREFIXES) chunk"

text \<open>
  \<^verbatim>\<open>nyc["tract"].map(tract_map)\<close> looks the 11-character tract up; a tract that is no key
  gives a missing zipcode. The rows that reach this point passed the county filter, so their
  block identifier is present; the missing case is written out all the same.
\<close>

definition lookup_zip :: "tract_map \<Rightarrow> location_row \<Rightarrow> string option" where
  "lookup_zip tm r = (case str_slice 11 (block_geoid r) of None \<Rightarrow> None | Some t \<Rightarrow> tm t)"

text \<open>
  \<^verbatim>\<open>dropna(subset=["zipcode"])\<close>, the \<^verbatim>\<open>tech\<close> column and the projection on the six
  output columns, for one row: \<open>None\<close> when the row is dropped.
\<close>

definition resolve_row :: "string \<Rightarrow> tract_map \<Rightarrow> location_row \<Rightarrow> resolved_row option" where
  "resolve_row tech_label tm r =
     (case lookup_zip tm r of
        None \<Rightarrow> None
      | Some z \<Rightarrow> Some \<lparr>zipcode = z, r_brand_name = brand_name r,
                         r_location_id = location_id r,
                         r_download = max_advertised_download_speed r,
                         r_upload = max_advertised_upload_speed r,
                         tech = tech_label\<rparr>)"

text \<open>
  The body of the \<^verbatim>\<open>for chunk in reader\<close> loop, with the list \<^verbatim>\<open>chunks\<close> as the
  accumulator: a chunk without NYC rows is skipped by \<^verbatim>\<open>continue\<close>; any other chunk
  appends its resolved rows, also when \<^verbatim>\<open>dropna\<close> left none.
\<close>

fun process_chunks :: "string \<Rightarrow> tract_map \<Rightarrow> location_row list list \<Rightarrow>
    resolved_row list list \<Rightarrow> resolved_row list list" where
  "process_chunks tech_label tm [] chunks = chunks"
| "process_chunks tech_label tm (chunk # rest) chunks =
     (let nyc = county_filter chunk in
      if nyc = [] then process_chunks tech_label tm rest chunks
      else process_chunks tech_label tm rest
             (chunks @ [List.map_filter (resolve_row tech_label tm) nyc]))"

text \<open>
  \<^verbatim>\<open>process_fcc_file\<close> with the chunk size as a parameter. Both \<^verbatim>\<open>pd.DataFrame()\<close> and a
  concatenation without rows are the empty list: the caller only tests \<^verbatim>\<open>df.empty\<close>.
\<close>

definition process_fcc_file_chunked :: "nat \<Rightarrow> location_row list \<Rightarrow> string \<Rightarrow> tract_map \<Rightarrow>
    resolved_row list" where
  "process_fcc_file_chunked n file tech_label tm =
     (let chunks = process_chunks tech_label tm (read_csv_chunks n file) [] in
      if chunks = [] then [] else concat chunks)"

definition process_fcc_file :: "location_row list \<Rightarrow> string \<Rightarrow> tract_map \<Rightarrow> resolved_row list" where
  "process_fcc_file file tech_label tm = process_fcc_file_chunked CHUNK_SIZE file tech_label tm"

subsection \<open>Step 3: aggregation per ZCTA\<close>

text \<open>One row of the frame \<^verbatim>\<open>aggregate_by_zcta\<close> returns.\<close>

record agg_row =
  a_zipcode :: string
  fcc_isp_count :: nat
  fcc_max_dl_mbps :: "int option"
  fcc_max_ul_mbps :: "int option"
  fcc_location_count :: nat
  fcc_cable_available :: bool
  fcc_fiber_available :: bool
  fcc_copper_available :: bool

text \<open>\<^verbatim>\<open>"nunique"\<close>: the number of distinct values, missing values not counted.\<close>

definition nunique :: "'a option list \<Rightarrow> nat" where
  "nunique vs = length (remdups (List.map_filter id vs))"

text \<open>
  \<^verbatim>\<open>"max"\<close> on a nullable integer column: missing values are skipped, and a group
  without any value has a missing maximum.
\<close>

definition agg_max :: "int option list \<Rightarrow> int option" where
  "agg_max vs = (case List.map_filter id vs of [] \<Rightarrow> None | v # rest \<Rightarrow> Some (fold max rest v))"

text \<open>
  \<^verbatim>\<open>df.groupby("zipcode")\<close>: one group per distinct key, in sorted key order; strings
  compare lexicographically by character code.
\<close>

definition group_keys :: "resolved_row list \<Rightarrow> string list" where
  "group_keys df = sort (remdups (map zipcode df))"

definition group_rows :: "resolved_row list \<Rightarrow> string \<Rightarrow> resolved_row list" where
  "group_rows df z = filter (\<lambda>r. zipcode r = z) df"

text \<open>\<^verbatim>\<open>df[df["tech"] == tech]["zipcode"].unique()\<close>\<close>

definition zips_with_tech :: "resolved_row list \<Rightarrow> string \<Rightarrow> string list" where
  "zips_with_tech df t = remdups (map zipcode (filter (\<lambda>r. tech r = t) df))"

definition aggregate_zip :: "resolved_row list \<Rightarrow> string \<Rightarrow> agg_row" where
  "aggregate_zip df z =
     \<lparr>a_zipcode = z,
      fcc_isp_count = nunique (map r_brand_name (group_rows df z)),
      fcc_max_dl_mbps = agg_max (map r_download (group_rows df z)),
      fcc_max_ul_mbps = agg_max (map r_upload (group_rows df z)),
      fcc_location_count = nunique (map r_location_id (group_rows df z)),
      fcc_cable_available = (z \<in> set (zips_with_tech df ''cable'')),
      fcc_fiber_available = (z \<in> set (zips_with_tech df ''fiber'')),
      fcc_copper_available = (z \<in> set (zips_with_tech df ''copper''))\<rparr>"

definition aggregate_by_zcta :: "resolved_row list \<Rightarrow> agg_row list" where
  "aggregate_by_zcta df = map (aggregate_zip df) (group_keys df)"

subsection \<open>Step 4: join to the existing dataset\<close>

text \<open>
  The base dataset has columns the program does not know, so it is a frame with named
  columns: the header, and each row as the list of its (column, value) pairs in header
  order. A value is missing, a string, an integer, a boolean or a floating-point number;
  the join never computes with the numbers of the base dataset, it only moves them.
  Reading and writing the CSV file is taken to keep header and values as they are.
\<close>

datatype cell = NA | StrCell string | IntCell int | BoolCell bool | FloatCell real

type_synonym row = "(string \<times> cell) list"

record frame =
  columns :: "string list"
  rows :: "row list"

text \<open>
  What \<^verbatim>\<open>pd.read_csv\<close> returns: column names are distinct (it renames repeated
  headers) and every row has one value per column.
\<close>

definition wf_frame :: "frame \<Rightarrow> bool" where
  "wf_frame fr \<longleftrightarrow> distinct (columns fr) \<and> list_all (\<lambda>r. map fst r = columns fr) (rows fr)"

datatype error = FileNotFoundError | KeyError

datatype log_event = LogWarning string | LogError string

text \<open>
  The files the program touches: the crosswalk cache, the technology files by path, the
  output CSV; and the warnings and errors logged so far.
\<close>

record filesystem =
  crosswalk_json :: "tract_map option"
  fcc_csv :: "string \<rightharpoonup> location_row list"
  output_csv :: "frame option"
  logged :: "log_event list"

text \<open>\<^verbatim>\<open>c.startswith("fcc_")\<close>\<close>

definition is_fcc :: "string \<Rightarrow> bool" where
  "is_fcc c \<longleftrightarrow> take 4 c = ''fcc_''"

text \<open>
  \<^verbatim>\<open>.str.zfill(5)\<close> applies Python's \<^verbatim>\<open>str.zfill\<close> to each string: zeros on the
  left up to the width, behind a leading sign when there is one; a value that is no string
  becomes missing. ZIP codes are ASCII, so the length in characters is the list length.
\<close>

definition zfill :: "nat \<Rightarrow> string \<Rightarrow> string" where
  "zfill w s =
     (if w \<le> length s then s
      else (case s of
              [] \<Rightarrow> replicate w CHR ''0''
            | c # rest \<Rightarrow>
                if c = CHR ''+'' \<or> c = CHR ''-''
                then c # replicate (w - length s) CHR ''0'' @ rest
                else replicate (w - length s) CHR ''0'' @ s))"

definition str_zfill :: "nat \<Rightarrow> cell \<Rightarrow> cell" where
  "str_zfill w v = (case v of StrCell s \<Rightarrow> StrCell (zfill w s) | _ \<Rightarrow> NA)"

text \<open>\<^verbatim>\<open>base["zipcode"] = base["zipcode"].str.zfill(5)\<close>\<close>

definition zfill_row :: "row \<Rightarrow> row" where
  "zfill_row r = map (\<lambda>(c, v). if c = ''zipcode'' then (c, str_zfill 5 v) else (c, v)) r"

definition zfill_zipcode :: "frame \<Rightarrow> frame" where
  "zfill_zipcode fr = fr\<lparr>rows := map zfill_row (rows fr)\<rparr>"

text \<open>\<^verbatim>\<open>base.drop(columns=drop_cols)\<close>\<close>

definition drop_columns :: "string list \<Rightarrow> frame \<Rightarrow> frame" where
  "drop_columns drop_cols fr =
     \<lparr>columns = filter (\<lambda>c. c \<notin> set drop_cols) (columns fr),
      rows = map (filter (\<lambda>(c, v). c \<notin> set drop_cols)) (rows fr)\<rparr>"

text \<open>The columns of the aggregate besides the key, in the order the source creates them.\<close>

definition AGG_COLUMNS :: "string list" where
  "AGG_COLUMNS = [''fcc_isp_count'', ''fcc_max_dl_mbps'', ''fcc_max_ul_mbps'',
     ''fcc_location_count'', ''fcc_cable_available'', ''fcc_fiber_available'',
     ''fcc_copper_available'']"

definition int32_cell :: "int option \<Rightarrow> cell" where
  "int32_cell v = (case v of None \<Rightarrow> NA | Some i \<Rightarrow> IntCell i)"

definition agg_cells :: "agg_row \<Rightarrow> row" where
  "agg_cells a =
     [(''fcc_isp_count'', IntCell (int (fcc_isp_count a))),
      (''fcc_max_dl_mbps'', int32_cell (fcc_max_dl_mbps a)),
      (''fcc_max_ul_mbps'', int32_cell (fcc_max_ul_mbps a)),
      (''fcc_location_count'', IntCell (int (fcc_location_count a))),
      (''fcc_cable_available'', BoolCell (fcc_cable_available a)),
      (''fcc_fiber_available'', BoolCell (fcc_fiber_available a)),
      (''fcc_copper_available'', BoolCell (fcc_copper_available a))]"

definition null_cells :: row where
  "null_cells = map (\<lambda>c. (c, NA)) AGG_COLUMNS"

text \<open>
  \<^verbatim>\<open>base.merge(fcc_agg, on="zipcode", how="left")\<close>: the rows of the left frame in
  their order; a left row with matching right rows gives one output row per match, a left
  row without match gives one output row with missing values in the right columns. No
  suffix is added to a column name: the left frame has lost its \<^verbatim>\<open>fcc_\<close> columns,
  and the key is the only other column of the right frame.
\<close>

definition matching_cells :: "agg_row list \<Rightarrow> row \<Rightarrow> row list" where
  "matching_cells fcc_agg r =
     (case filter (\<lambda>a. map_of r ''zipcode'' = Some (StrCell (a_zipcode a))) fcc_agg of
        [] \<Rightarrow> [null_cells]
      | ms \<Rightarrow> map agg_cells ms)"

definition merge_row :: "agg_row list \<Rightarrow> row \<Rightarrow> row list" where
  "merge_row fcc_agg r = map (\<lambda>x. r @ x) (matching_cells fcc_agg r)"

definition merge_left :: "frame \<Rightarrow> agg_row list \<Rightarrow> frame" where
  "merge_left fr fcc_agg =
     \<lparr>columns = columns fr @ AGG_COLUMNS,
      rows = concat (map (merge_row fcc_agg) (rows fr))\<rparr>"

text \<open>\<^verbatim>\<open>merged[final_order]\<close>: for each name in turn, the columns of that name.\<close>

definition select_columns :: "string list \<Rightarrow> frame \<Rightarrow> frame" where
  "select_columns names fr =
     \<lparr>columns = concat (map (\<lambda>n. filter (\<lambda>c. c = n) (columns fr)) names),
      rows = map (\<lambda>r. concat (map (\<lambda>n. filter (\<lambda>(c, v). c = n) r) names)) (rows fr)\<rparr>"

text \<open>\<^verbatim>\<open>other_cols.index(insert_after)\<close>, called only when the name is in the list.\<close>

definition list_index :: "'a list \<Rightarrow> 'a \<Rightarrow> nat" where
  "list_index xs x = length (takeWhile (\<lambda>y. y \<noteq> x) xs)"

definition insert_after :: string where
  "insert_after = ''census_no_internet_pct''"

definition final_order :: "string list \<Rightarrow> string list" where
  "final_order merged_columns =
     (let fcc_cols = filter is_fcc merged_columns;
          other_cols = filter (\<lambda>c. \<not> is_fcc c) merged_columns
      in if insert_after \<in> set other_cols then
           (let idx = list_index other_cols insert_after + 1
            in take idx other_cols @ fcc_cols @ drop idx other_cols)
         else other_cols @ fcc_cols)"

text \<open>
  The part of \<^verbatim>\<open>join_and_save\<close> between reading and writing the output file: the
  frame it computes from the frame it has read.
\<close>

definition merge_stage :: "agg_row list \<Rightarrow> frame \<Rightarrow> frame" where
  "merge_stage fcc_agg base0 =
     (let base1 = zfill_zipcode base0;
          drop_cols = filter is_fcc (columns base1);
          base = drop_columns drop_cols base1;
          merged = merge_left base fcc_agg
      in select_columns (final_order (columns merged)) merged)"

text \<open>
  \<^verbatim>\<open>join_and_save\<close>: reading a missing output file raises, and so does
  \<^verbatim>\<open>base["zipcode"]\<close> on a file without that column. Otherwise the merged frame is
  written to the output file and returned.
\<close>

definition join_and_save :: "agg_row list \<Rightarrow> filesystem \<Rightarrow> error + (frame \<times> filesystem)" where
  "join_and_save fcc_agg fs =
     (case output_csv fs of
        None \<Rightarrow> Inl FileNotFoundError
      | Some base0 \<Rightarrow>
          if ''zipcode'' \<notin> set (columns base0) then Inl KeyError
          else
            (let merged = merge_stage fcc_agg base0
             in Inr (merged, fs\<lparr>output_csv := Some merged\<rparr>)))"

subsection \<open>Auxiliary notions for the join\<close>

text \<open>
  For stating what the merge stage computes: the position behind the anchor among the
  columns without \<^verbatim>\<open>fcc_\<close> prefix (their number when the anchor is absent), and a base
  row with its ZIP padded and its \<^verbatim>\<open>fcc_\<close> values removed.
\<close>

definition anchor_pos :: "string list \<Rightarrow> nat" where
  "anchor_pos other_cols =
     (if insert_after \<in> set other_cols then list_index other_cols insert_after + 1
      else length other_cols)"

definition kept_row :: "row \<Rightarrow> row" where
  "kept_row r = filter (\<lambda>(c, v). \<not> is_fcc c) (zfill_row r)"


subsection \<open>Main\<close>

definition FCC_FILES :: "(string \<times> string) list" where
  "FCC_FILES =
     [(''cable'', ''requested/bdc_36_Cable_fixed_broadband_J25_17feb2026.csv''),
      (''fiber'', ''requested/bdc_36_FibertothePremises_fixed_broadband_J25_17feb2026.csv''),
      (''copper'', ''requested/bdc_36_Copper_fixed_broadband_J25_17feb2026.csv'')]"

text \<open>\<^verbatim>\<open>load_tract_zcta_map\<close>\<close>

definition load_tract_zcta_map :: "filesystem \<Rightarrow> error + tract_map" where
  "load_tract_zcta_map fs =
     (case crosswalk_json fs of None \<Rightarrow> Inl FileNotFoundError | Some tm \<Rightarrow> Inr tm)"

text \<open>
  The loop over \<^verbatim>\<open>FCC_FILES.items()\<close>, with \<^verbatim>\<open>all_dfs\<close> as the accumulator: a
  missing file logs a warning and is skipped, a file without resolved rows adds nothing.
\<close>

fun process_all :: "tract_map \<Rightarrow> (string \<times> string) list \<Rightarrow> filesystem \<Rightarrow>
    resolved_row list list \<Rightarrow> filesystem \<times> resolved_row list list" where
  "process_all tm [] fs all_dfs = (fs, all_dfs)"
| "process_all tm ((tech_label, path) # rest) fs all_dfs =
     (case fcc_csv fs path of
        None \<Rightarrow> process_all tm rest (fs\<lparr>logged := logged fs @ [LogWarning tech_label]\<rparr>) all_dfs
      | Some src \<Rightarrow>
          (let df = process_fcc_file src tech_label tm
           in if df \<noteq> [] then process_all tm rest fs (all_dfs @ [df])
              else process_all tm rest fs all_dfs))"

text \<open>
  The columns the summary at the end of \<^verbatim>\<open>main\<close> selects from the merged frame besides
  the key and the \<^verbatim>\<open>fcc_\<close> columns; selecting an absent one raises, after the output file
  has been written.
\<close>

definition SUMMARY_COLUMNS :: "string list" where
  "SUMMARY_COLUMNS = [''borough'', ''neighborhood'', ''census_no_internet_pct'']"

text \<open>
  \<^verbatim>\<open>main\<close>: the outcome (an exception or the normal return) and the file system it leaves.
\<close>

definition main :: "filesystem \<Rightarrow> (error + unit) \<times> filesystem" where
  "main fs =
     (case load_tract_zcta_map fs of
        Inl e \<Rightarrow> (Inl e, fs)
      | Inr tm \<Rightarrow>
          (case process_all tm FCC_FILES fs [] of
             (fs1, all_dfs) \<Rightarrow>
               if all_dfs = [] then
                 (Inr (), fs1\<lparr>logged := logged fs1 @ [LogError ''No FCC data processed'']\<rparr>)
               else
                 (let combined = concat all_dfs;
                      fcc_agg = aggregate_by_zcta combined
                  in case join_and_save fcc_agg fs1 of
                       Inl e \<Rightarrow> (Inl e, fs1)
                     | Inr (merged, fs2) \<Rightarrow>
                         if set SUMMARY_COLUMNS \<subseteq> set (columns merged) then (Inr (), fs2)
                         else (Inl KeyError, fs2))))"

subsection \<open>What the loop of main computes\<close>

text \<open>
  Two functions for stating properties of \<^verbatim>\<open>main\<close>: the non-empty resolved frames of the
  files that exist, in the order of \<^verbatim>\<open>FCC_FILES\<close>, and the labels of the files that do
  not exist.
\<close>

definition present_frames :: "tract_map \<Rightarrow> (string \<times> string) list \<Rightarrow> filesystem \<Rightarrow> resolved_row list list" where
  "present_frames tm fl fs =
     filter (\<lambda>df. df \<noteq> [])
       (List.map_filter (\<lambda>(t, p). map_option (\<lambda>src. process_fcc_file src t tm) (fcc_csv fs p)) fl)"

definition missing_techs :: "(string \<times> string) list \<Rightarrow> filesystem \<Rightarrow> string list" where
  "missing_techs fl fs = map fst (filter (\<lambda>(t, p). fcc_csv fs p = None) fl)"

subsection \<open>Example data\<close>

text \<open>The crosswalk and the cable file of the specification's example scenario.\<close>

definition ex_tract_map :: tract_map where
  "ex_tract_map = [''36061000100'' \<mapsto> ''10001'']"

definition ex_row :: "string \<Rightarrow> string \<Rightarrow> int option \<Rightarrow> int option \<Rightarrow> string option \<Rightarrow> location_row" where
  "ex_row b l d u g =
     \<lparr>brand_name = Some b, location_id = Some l, max_advertised_download_speed = d,
      max_advertised_upload_speed = u, block_geoid = g\<rparr>"

definition ex_cable_file :: "location_row list" where
  "ex_cable_file =
     [ex_row ''A'' ''L1'' (Some 500) (Some 50) (Some ''360610001001001''),
      ex_row ''B'' ''L2'' None None (Some ''360610001001002''),
      ex_row ''A'' ''L3'' (Some 300) (Some 30) (Some ''999990001001001'')]"

definition ex_resolved :: "resolved_row list" where
  "ex_resolved =
     [\<lparr>zipcode = ''10001'', r_brand_name = Some ''A'', r_location_id = Some ''L1'',
       r_download = Some 500, r_upload = Some 50, tech = ''cable''\<rparr>,
      \<lparr>zipcode = ''10001'', r_brand_name = Some ''B'', r_location_id = Some ''L2'',
       r_download = None, r_upload = None, tech = ''cable''\<rparr>]"

definition ex_agg :: agg_row where
  "ex_agg = \<lparr>a_zipcode = ''10001'', fcc_isp_count = 2, fcc_max_dl_mbps = Some 500,
     fcc_max_ul_mbps = Some 50, fcc_location_count = 2, fcc_cable_available = True,
     fcc_fiber_available = False, fcc_copper_available = False\<rparr>"

text \<open>A ZIP whose only row advertises no speed.\<close>

definition ex_null_resolved :: "resolved_row list" where
  "ex_null_resolved =
     [\<lparr>zipcode = ''10002'', r_brand_name = Some ''B'', r_location_id = Some ''L2'',
       r_download = None, r_upload = None, tech = ''fiber''\<rparr>]"

definition ex_null_agg :: agg_row where
  "ex_null_agg = \<lparr>a_zipcode = ''10002'', fcc_isp_count = 1, fcc_max_dl_mbps = None,
     fcc_max_ul_mbps = None, fcc_location_count = 1, fcc_cable_available = False,
     fcc_fiber_available = True, fcc_copper_available = False\<rparr>"

text \<open>A base dataset with a stale placeholder column, and file systems around it.\<close>

definition ex_base :: frame where
  "ex_base =
     \<lparr>columns = [''zipcode'', ''borough'', ''neighborhood'', ''census_no_internet_pct'',
                 ''fcc_isp_count'', ''avg_rate''],
      rows =
        [[(''zipcode'', StrCell ''10001''), (''borough'', StrCell ''Manhattan''),
          (''neighborhood'', StrCell ''Chelsea''), (''census_no_internet_pct'', FloatCell 12),
          (''fcc_isp_count'', NA), (''avg_rate'', FloatCell 24)],
         [(''zipcode'', StrCell ''6390''), (''borough'', NA), (''neighborhood'', NA),
          (''census_no_internet_pct'', NA), (''fcc_isp_count'', NA),
          (''avg_rate'', IntCell 20)]]\<rparr>"

definition ex_merged :: frame where
  "ex_merged =
     \<lparr>columns = [''zipcode'', ''borough'', ''neighborhood'', ''census_no_internet_pct'',
                 ''fcc_isp_count'', ''fcc_max_dl_mbps'', ''fcc_max_ul_mbps'',
                 ''fcc_location_count'', ''fcc_cable_available'', ''fcc_fiber_available'',
                 ''fcc_copper_available'', ''avg_rate''],
      rows =
        [[(''zipcode'', StrCell ''10001''), (''borough'', StrCell ''Manhattan''),
          (''neighborhood'', StrCell ''Chelsea''), (''census_no_internet_pct'', FloatCell 12),
          (''fcc_isp_count'', IntCell 2), (''fcc_max_dl_mbps'', IntCell 500),
          (''fcc_max_ul_mbps'', IntCell 50), (''fcc_location_count'', IntCell 2),
          (''fcc_cable_available'', BoolCell True), (''fcc_fiber_available'', BoolCell False),
          (''fcc_copper_available'', BoolCell False), (''avg_rate'', FloatCell 24)],
         [(''zipcode'', StrCell ''06390''), (''borough'', NA), (''neighborhood'', NA),
          (''census_no_internet_pct'', NA),
          (''fcc_isp_count'', NA), (''fcc_max_dl_mbps'', NA),
          (''fcc_max_ul_mbps'', NA), (''fcc_location_count'', NA),
          (''fcc_cable_available'', NA), (''fcc_fiber_available'', NA),
          (''fcc_copper_available'', NA), (''avg_rate'', IntCell 20)]]\<rparr>"

text \<open>Only the cable file exists.\<close>

definition ex_fs :: filesystem where
  "ex_fs =
     \<lparr>crosswalk_json = Some ex_tract_map,
      fcc_csv = [''requested/bdc_36_Cable_fixed_broadband_J25_17feb2026.csv'' \<mapsto> ex_cable_file],
      output_csv = Some ex_base, logged = []\<rparr>"

text \<open>Only the cable file exists, and its only row is outside the target counties.\<close>

definition ex_fs_nodata :: filesystem where
  "ex_fs_nodata =
     \<lparr>crosswalk_json = Some ex_tract_map,
      fcc_csv = [''requested/bdc_36_Cable_fixed_broadband_J25_17feb2026.csv'' \<mapsto>
                   [ex_row ''A'' ''L3'' (Some 300) (Some 30) (Some ''999990001001001'')]],
      output_csv = Some ex_base, logged = []\<rparr>"

text \<open>A base dataset without the anchor column.\<close>

definition ex_plain :: frame where
  "ex_plain =
     \<lparr>columns = [''zipcode'', ''fcc_isp_count'', ''avg_rate''],
      rows = [[(''zipcode'', StrCell ''10001''), (''fcc_isp_count'', IntCell 7),
               (''avg_rate'', FloatCell 24)]]\<rparr>"

section \<open>Proofs\<close>

subsection \<open>Ingestion: the loop computes a filter over the whole file\<close>

lemma concat_read_csv_chunks: "0 < n \<Longrightarrow> concat (read_csv_chunks n xs) = xs"
proof (induction n xs rule: read_csv_chunks.induct)
  case (1 n xs)
  show ?case
  proof (cases "xs = []")
    case True
    then show ?thesis by (simp add: read_csv_chunks.simps)
  next
    case False
    with 1 have "concat (read_csv_chunks n (drop n xs)) = drop n xs" by simp
    with False 1(2) show ?thesis
      by (subst read_csv_chunks.simps) simp
  qed
qed

lemma concat_process_chunks:
  "concat (process_chunks tech_label tm cs acc) =
     concat acc @ List.map_filter (resolve_row tech_label tm) (county_filter (concat cs))"
proof (induction cs arbitrary: acc)
  case Nil
  then show ?case by (simp add: county_filter_def map_filter_simps)
next
  case (Cons c cs)
  have split: "county_filter (c @ concat cs) = county_filter c @ county_filter (concat cs)"
    by (simp add: county_filter_def)
  show ?case
    by (simp add: Cons.IH Let_def split map_filter_simps map_filter_def)
qed

lemma process_fcc_file_chunked_eq:
  assumes "0 < n"
  shows "process_fcc_file_chunked n file tech_label tm =
           List.map_filter (resolve_row tech_label tm) (county_filter file)"
proof -
  have "concat (process_chunks tech_label tm (read_csv_chunks n file) []) =
          List.map_filter (resolve_row tech_label tm) (county_filter file)"
    by (simp add: concat_process_chunks concat_read_csv_chunks [OF assms])
  then show ?thesis
    by (auto simp: process_fcc_file_chunked_def Let_def map_filter_simps)
qed

lemma process_fcc_file_eq:
  "process_fcc_file file tech_label tm =
     List.map_filter (resolve_row tech_label tm) (county_filter file)"
  by (simp add: process_fcc_file_def CHUNK_SIZE_def process_fcc_file_chunked_eq)

subsection \<open>Aggregation: helper lemmas\<close>

lemma set_group_keys: "set (group_keys df) = zipcode ` set df"
  by (simp add: group_keys_def)


lemma in_aggregate_by_zcta:
  "a \<in> set (aggregate_by_zcta df) \<longleftrightarrow> (\<exists>z \<in> zipcode ` set df. a = aggregate_zip df z)"
  by (auto simp: aggregate_by_zcta_def set_group_keys)



lemma in_zips_with_tech:
  "z \<in> set (zips_with_tech df t) \<longleftrightarrow> (\<exists>r \<in> set df. zipcode r = z \<and> tech r = t)"
  by (auto simp: zips_with_tech_def)

lemma set_map_filter_id: "set (List.map_filter id vs) = {v. Some v \<in> set vs}"
  by (induction vs) (auto simp: map_filter_simps split: option.splits)

lemma agg_max_None: "agg_max vs = None \<longleftrightarrow> {v. Some v \<in> set vs} = {}"
proof -
  have "agg_max vs = None \<longleftrightarrow> List.map_filter id vs = []"
    by (simp add: agg_max_def split: list.splits)
  also have "\<dots> \<longleftrightarrow> set (List.map_filter id vs) = {}"
    by simp
  finally show ?thesis
    by (simp only: set_map_filter_id)
qed

lemma agg_max_Some:
  assumes "{v. Some v \<in> set vs} \<noteq> {}"
  shows "agg_max vs = Some (Max {v. Some v \<in> set vs})"
proof -
  from assms obtain v rest where vr: "List.map_filter id vs = v # rest"
    by (cases "List.map_filter id vs") (auto simp: set_map_filter_id [symmetric])
  have "fold max rest v = Max (set (v # rest))"
    by (simp only: Max.set_eq_fold)
  also have "set (v # rest) = {v. Some v \<in> set vs}"
    by (simp only: vr [symmetric] set_map_filter_id)
  finally show ?thesis
    by (simp add: agg_max_def vr)
qed

lemma group_values:
  "{v. Some v \<in> set (map f (group_rows df z))} = {v. \<exists>r \<in> set df. zipcode r = z \<and> f r = Some v}"
  by (force simp: group_rows_def image_iff)

lemmas ex_eval = ex_cable_file_def ex_row_def ex_resolved_def ex_tract_map_def county_filter_def
  isin_def str_slice_def NYC_COUNTY_PREFIXES_def map_filter_simps resolve_row_def lookup_zip_def

lemmas agg_eval = aggregate_by_zcta_def group_keys_def aggregate_zip_def group_rows_def
  nunique_def agg_max_def map_filter_simps zips_with_tech_def

lemma set_map_filter: "set (List.map_filter f xs) = {y. \<exists>x \<in> set xs. f x = Some y}"
  by (induction xs) (auto simp: map_filter_simps split: option.splits)

lemma resolve_row_Some:
  "resolve_row lbl tm r = Some r' \<longleftrightarrow>
     (\<exists>g z. block_geoid r = Some g \<and> tm (take 11 g) = Some z \<and>
        r' = \<lparr>zipcode = z, r_brand_name = brand_name r, r_location_id = location_id r,
              r_download = max_advertised_download_speed r,
              r_upload = max_advertised_upload_speed r, tech = lbl\<rparr>)"
  by (cases "block_geoid r")
     (auto simp: resolve_row_def lookup_zip_def str_slice_def split: option.splits)

lemma in_county_filter:
  "r \<in> set (county_filter src) \<longleftrightarrow>
     r \<in> set src \<and> (\<exists>g. block_geoid r = Some g \<and> take 5 g \<in> NYC_COUNTY_PREFIXES)"
  by (cases "block_geoid r") (auto simp: county_filter_def isin_def str_slice_def)

lemma short_not_county: "length g < 5 \<Longrightarrow> take 5 g \<notin> NYC_COUNTY_PREFIXES"
  by (auto simp: NYC_COUNTY_PREFIXES_def)

section \<open>Ingestion claims\<close>

text \<open>
  C5. The resolved output of one source file is, in file order, exactly the rows whose block
  identifier is present, has its first 5 characters in the target-county set and its first
  11 characters among the keys of the crosswalk; each of them carries the ZIP the crosswalk
  gives and the technology label. A row is in the output only if it comes from such an input
  row, so a row failing the county test or without crosswalk entry never appears, and no
  output row has a missing ZIP (the field is a string, not an option).
\<close>

theorem process_fcc_file_resolved_rows:
  "process_fcc_file src tech_label tm =
     List.map_filter (\<lambda>r.
        case block_geoid r of
          None \<Rightarrow> None
        | Some g \<Rightarrow>
            if take 5 g \<in> NYC_COUNTY_PREFIXES then
              (case tm (take 11 g) of
                 None \<Rightarrow> None
               | Some z \<Rightarrow> Some \<lparr>zipcode = z, r_brand_name = brand_name r,
                    r_location_id = location_id r,
                    r_download = max_advertised_download_speed r,
                    r_upload = max_advertised_upload_speed r, tech = tech_label\<rparr>)
            else None) src
   \<and> (\<forall>r'. r' \<in> set (process_fcc_file src tech_label tm) \<longleftrightarrow>
         (\<exists>r g z. r \<in> set src \<and> block_geoid r = Some g \<and> take 5 g \<in> NYC_COUNTY_PREFIXES \<and>
            tm (take 11 g) = Some z \<and>
            r' = \<lparr>zipcode = z, r_brand_name = brand_name r, r_location_id = location_id r,
                  r_download = max_advertised_download_speed r,
                  r_upload = max_advertised_upload_speed r, tech = tech_label\<rparr>))"
proof (intro conjI allI)
  show "process_fcc_file src tech_label tm =
     List.map_filter (\<lambda>r.
        case block_geoid r of
          None \<Rightarrow> None
        | Some g \<Rightarrow>
            if take 5 g \<in> NYC_COUNTY_PREFIXES then
              (case tm (take 11 g) of
                 None \<Rightarrow> None
               | Some z \<Rightarrow> Some \<lparr>zipcode = z, r_brand_name = brand_name r,
                    r_location_id = location_id r,
                    r_download = max_advertised_download_speed r,
                    r_upload = max_advertised_upload_speed r, tech = tech_label\<rparr>)
            else None) src"
    unfolding process_fcc_file_eq
    by (induction src)
       (auto simp: map_filter_simps county_filter_def isin_def str_slice_def
          resolve_row_def lookup_zip_def split: option.splits)
next
  fix r'
  have "r' \<in> set (process_fcc_file src tech_label tm) \<longleftrightarrow>
          (\<exists>r \<in> set (county_filter src). resolve_row tech_label tm r = Some r')"
    by (simp add: process_fcc_file_eq set_map_filter)
  also have "\<dots> \<longleftrightarrow> (\<exists>r g z. r \<in> set src \<and> block_geoid r = Some g \<and>
            take 5 g \<in> NYC_COUNTY_PREFIXES \<and> tm (take 11 g) = Some z \<and>
            r' = \<lparr>zipcode = z, r_brand_name = brand_name r, r_location_id = location_id r,
                  r_download = max_advertised_download_speed r,
                  r_upload = max_advertised_upload_speed r, tech = tech_label\<rparr>)"
    unfolding Bex_def in_county_filter resolve_row_Some
    by (intro iffI; elim exE conjE; force)
  finally show "r' \<in> set (process_fcc_file src tech_label tm) \<longleftrightarrow>
         (\<exists>r g z. r \<in> set src \<and> block_geoid r = Some g \<and> take 5 g \<in> NYC_COUNTY_PREFIXES \<and>
            tm (take 11 g) = Some z \<and>
            r' = \<lparr>zipcode = z, r_brand_name = brand_name r, r_location_id = location_id r,
                  r_download = max_advertised_download_speed r,
                  r_upload = max_advertised_upload_speed r, tech = tech_label\<rparr>)" .
qed

text \<open>On the example file: the third row (county 99999) is gone, the other two are resolved.\<close>

theorem process_fcc_file_resolved_rows_witness:
  "process_fcc_file ex_cable_file ''cable'' ex_tract_map = ex_resolved"
  using process_fcc_file_resolved_rows [of ex_cable_file "''cable''" ex_tract_map]
  by (simp add: ex_eval)

text \<open>
  C10. A row whose block identifier is missing or shorter than 5 characters does not pass
  the county filter, wherever it stands in the file: the rows after the county filter, and
  so the resolved output, are those of the file without that row. The model of
  \<^verbatim>\<open>process_fcc_file\<close> has no error branch: slicing and membership are defined on
  missing and on short values.
\<close>

theorem missing_or_short_geoid_excluded:
  assumes "block_geoid r = None \<or> (\<exists>g. block_geoid r = Some g \<and> length g < 5)"
  shows "county_filter (xs @ r # ys) = county_filter (xs @ ys)
       \<and> process_fcc_file (xs @ r # ys) tech_label tm = process_fcc_file (xs @ ys) tech_label tm"
proof -
  have "\<not> isin (str_slice 5 (block_geoid r)) NYC_COUNTY_PREFIXES"
    using assms short_not_county by (auto simp: isin_def str_slice_def)
  then have "county_filter (xs @ r # ys) = county_filter (xs @ ys)"
    by (simp add: county_filter_def)
  then show ?thesis
    by (simp add: process_fcc_file_eq)
qed

theorem missing_or_short_geoid_excluded_witness:
  "process_fcc_file (ex_cable_file @ ex_row ''C'' ''L4'' (Some 1000) (Some 100) (Some ''3606'') # [])
       ''cable'' ex_tract_map = ex_resolved
   \<and> process_fcc_file (ex_row ''C'' ''L4'' (Some 1000) (Some 100) None # ex_cable_file)
       ''cable'' ex_tract_map = ex_resolved"
  using missing_or_short_geoid_excluded
          [of "ex_row ''C'' ''L4'' (Some 1000) (Some 100) (Some ''3606'')"
              ex_cable_file "[]" "''cable''" ex_tract_map]
        missing_or_short_geoid_excluded
          [of "ex_row ''C'' ''L4'' (Some 1000) (Some 100) None"
              "[]" ex_cable_file "''cable''" ex_tract_map]
  by (simp add: ex_eval process_fcc_file_eq)

text \<open>
  C3. For any two chunk sizes (pandas accepts the positive ones), processing a file in
  chunks of one size gives the same resolved rows as processing it in chunks of the other,
  and so the same per-ZIP aggregate rows.
\<close>

theorem chunk_size_irrelevant:
  assumes "0 < n" and "0 < m"
  shows "process_fcc_file_chunked n src tech_label tm = process_fcc_file_chunked m src tech_label tm
       \<and> aggregate_by_zcta (process_fcc_file_chunked n src tech_label tm) =
         aggregate_by_zcta (process_fcc_file_chunked m src tech_label tm)"
  by (simp add: process_fcc_file_chunked_eq assms)

theorem chunk_size_irrelevant_witness:
  "process_fcc_file_chunked 2 ex_cable_file ''cable'' ex_tract_map = ex_resolved
   \<and> process_fcc_file_chunked 1000000 ex_cable_file ''cable'' ex_tract_map = ex_resolved
   \<and> aggregate_by_zcta (process_fcc_file_chunked 1000000 ex_cable_file ''cable'' ex_tract_map) =
       [ex_agg]"
proof -
  have two: "process_fcc_file_chunked 2 ex_cable_file ''cable'' ex_tract_map = ex_resolved"
    by (simp add: process_fcc_file_chunked_def read_csv_chunks.simps ex_eval)
  have agg: "aggregate_by_zcta ex_resolved = [ex_agg]"
    by (simp add: agg_eval ex_resolved_def ex_agg_def)
  show ?thesis
    using chunk_size_irrelevant [of 2 1000000 ex_cable_file "''cable''" ex_tract_map] two agg
    by simp
qed

section \<open>Aggregation claims\<close>

text \<open>
  C1. For every row of the aggregate and each of the three technology tags, the
  availability flag of that tag is true iff some input row has the row's ZIP and that tag;
  brand and speed of the input row play no part.
\<close>

theorem tech_available_iff:
  assumes "a \<in> set (aggregate_by_zcta df)"
  shows "(fcc_cable_available a \<longleftrightarrow> (\<exists>r \<in> set df. zipcode r = a_zipcode a \<and> tech r = ''cable''))
       \<and> (fcc_fiber_available a \<longleftrightarrow> (\<exists>r \<in> set df. zipcode r = a_zipcode a \<and> tech r = ''fiber''))
       \<and> (fcc_copper_available a \<longleftrightarrow> (\<exists>r \<in> set df. zipcode r = a_zipcode a \<and> tech r = ''copper''))"
proof -
  from assms obtain z where a: "a = aggregate_zip df z"
    by (auto simp: in_aggregate_by_zcta)
  show ?thesis
    unfolding a by (simp add: aggregate_zip_def in_zips_with_tech)
qed

theorem tech_available_iff_witness:
  "ex_agg \<in> set (aggregate_by_zcta ex_resolved)
   \<and> fcc_cable_available ex_agg \<and> \<not> fcc_fiber_available ex_agg \<and> \<not> fcc_copper_available ex_agg
   \<and> (\<exists>r \<in> set ex_resolved. zipcode r = a_zipcode ex_agg \<and> tech r = ''cable'')
   \<and> \<not> (\<exists>r \<in> set ex_resolved. zipcode r = a_zipcode ex_agg \<and> tech r = ''fiber'')"
proof -
  have m: "ex_agg \<in> set (aggregate_by_zcta ex_resolved)"
    by (simp add: agg_eval ex_resolved_def ex_agg_def)
  show ?thesis
    using m tech_available_iff [OF m] by (simp add: ex_agg_def)
qed

text \<open>
  C2. For every row of the aggregate, the maximal download speed is the greatest download
  speed among the input rows of that ZIP that have one, and it is missing (not zero) when no
  row of that ZIP has one; likewise for the upload speed. The value is an optional integer:
  the column keeps the nullable integer type.
\<close>

theorem max_speed_per_zip:
  assumes "a \<in> set (aggregate_by_zcta df)"
  shows "fcc_max_dl_mbps a =
           (if {d. \<exists>r \<in> set df. zipcode r = a_zipcode a \<and> r_download r = Some d} = {} then None
            else Some (Max {d. \<exists>r \<in> set df. zipcode r = a_zipcode a \<and> r_download r = Some d}))
       \<and> fcc_max_ul_mbps a =
           (if {u. \<exists>r \<in> set df. zipcode r = a_zipcode a \<and> r_upload r = Some u} = {} then None
            else Some (Max {u. \<exists>r \<in> set df. zipcode r = a_zipcode a \<and> r_upload r = Some u}))"
proof -
  from assms obtain z where a: "a = aggregate_zip df z"
    by (auto simp: in_aggregate_by_zcta)
  have dl: "fcc_max_dl_mbps a = agg_max (map r_download (group_rows df z))"
    and ul: "fcc_max_ul_mbps a = agg_max (map r_upload (group_rows df z))"
    and z: "a_zipcode a = z"
    by (simp_all add: a aggregate_zip_def)
  have "agg_max vs = (if {v. Some v \<in> set vs} = {} then None else Some (Max {v. Some v \<in> set vs}))"
    for vs
    using agg_max_None [of vs] agg_max_Some [of vs] by (simp split: if_splits)
  then show ?thesis
    unfolding dl ul z by (simp only: group_values)
qed

text \<open>
  On the example: ZIP 10001 has the speeds 500 and none, its maximum is 500; ZIP 10002 has
  only a row without speed, its maximum is missing.
\<close>

theorem max_speed_per_zip_witness:
  "ex_agg \<in> set (aggregate_by_zcta ex_resolved)
   \<and> fcc_max_dl_mbps ex_agg = Some 500
   \<and> Max {d. \<exists>r \<in> set ex_resolved. zipcode r = a_zipcode ex_agg \<and> r_download r = Some d} = 500
   \<and> ex_null_agg \<in> set (aggregate_by_zcta ex_null_resolved)
   \<and> fcc_max_dl_mbps ex_null_agg = None
   \<and> {d. \<exists>r \<in> set ex_null_resolved. zipcode r = a_zipcode ex_null_agg \<and> r_download r = Some d} = {}"
proof -
  have m: "ex_agg \<in> set (aggregate_by_zcta ex_resolved)"
    by (simp add: agg_eval ex_resolved_def ex_agg_def)
  have n: "ex_null_agg \<in> set (aggregate_by_zcta ex_null_resolved)"
    by (simp add: agg_eval ex_null_resolved_def ex_null_agg_def)
  have dl: "fcc_max_dl_mbps ex_agg = Some 500" "fcc_max_dl_mbps ex_null_agg = None"
    by (simp_all add: ex_agg_def ex_null_agg_def)
  from max_speed_per_zip [OF m] max_speed_per_zip [OF n] m n dl show ?thesis
    by (simp split: if_splits)
qed

section \<open>The loop of main\<close>

lemma process_all_eq:
  "process_all tm fl fs dfs =
     (fs\<lparr>logged := logged fs @ map LogWarning (missing_techs fl fs)\<rparr>,
      dfs @ present_frames tm fl fs)"
proof (induction fl arbitrary: fs dfs)
  case Nil
  then show ?case by (simp add: missing_techs_def present_frames_def map_filter_simps)
next
  case (Cons tp fl)
  obtain t p where tp: "tp = (t, p)" by (cases tp)
  show ?case
  proof (cases "fcc_csv fs p")
    case None
    then show ?thesis
      by (simp add: tp Cons.IH missing_techs_def present_frames_def map_filter_simps)
  next
    case (Some src)
    then show ?thesis
      by (simp add: tp Cons.IH missing_techs_def present_frames_def map_filter_simps Let_def)
  qed
qed

lemma present_frames_tech:
  assumes "df \<in> set (present_frames tm fl fs)" and "r \<in> set df"
  shows "tech r \<in> fst ` set fl"
proof -
  from assms(1) obtain t p src where tp: "(t, p) \<in> set fl"
    and df: "df = process_fcc_file src t tm"
    by (auto simp: present_frames_def set_map_filter split: prod.splits)
  from assms(2) have "tech r = t"
    unfolding df process_fcc_file_eq set_map_filter by (auto simp: resolve_row_Some)
  with tp show ?thesis by force
qed

lemma present_frames_empty_iff:
  "present_frames tm fl fs = [] \<longleftrightarrow>
     (\<forall>(t, p) \<in> set fl. fcc_csv fs p = None \<or>
        (\<exists>src. fcc_csv fs p = Some src \<and> process_fcc_file src t tm = []))"
  by (induction fl) (auto simp: present_frames_def map_filter_simps split: option.splits)

lemma ex_process_all:
  "process_all ex_tract_map FCC_FILES ex_fs [] =
     (ex_fs\<lparr>logged := [LogWarning ''fiber'', LogWarning ''copper'']\<rparr>, [ex_resolved])"
  by (simp add: FCC_FILES_def ex_fs_def process_fcc_file_eq ex_eval)

text \<open>
  C9. In a run of \<^verbatim>\<open>main\<close>, every row of the aggregate of the combined frames has at
  least one availability flag set: the row comes from a resolved row, and the label of a
  resolved row is one of the three keys of \<^verbatim>\<open>FCC_FILES\<close>.
\<close>

theorem aggregate_row_has_technology:
  assumes "process_all tm FCC_FILES fs [] = (fs1, all_dfs)"
    and "a \<in> set (aggregate_by_zcta (concat all_dfs))"
  shows "fcc_cable_available a \<or> fcc_fiber_available a \<or> fcc_copper_available a"
proof -
  from assms(1) have dfs: "all_dfs = present_frames tm FCC_FILES fs"
    by (simp add: process_all_eq)
  from assms(2) obtain r where r: "r \<in> set (concat all_dfs)"
    and a: "a = aggregate_zip (concat all_dfs) (zipcode r)"
    by (auto simp: in_aggregate_by_zcta)
  from r obtain df where "df \<in> set all_dfs" "r \<in> set df" by auto
  then have "tech r \<in> fst ` set FCC_FILES"
    unfolding dfs by (rule present_frames_tech)
  then have "tech r = ''cable'' \<or> tech r = ''fiber'' \<or> tech r = ''copper''"
    by (auto simp: FCC_FILES_def)
  with r show ?thesis
    unfolding a by (auto simp: aggregate_zip_def in_zips_with_tech)
qed

theorem aggregate_row_has_technology_witness:
  "process_all ex_tract_map FCC_FILES ex_fs [] =
     (ex_fs\<lparr>logged := [LogWarning ''fiber'', LogWarning ''copper'']\<rparr>, [ex_resolved])
   \<and> ex_agg \<in> set (aggregate_by_zcta (concat [ex_resolved]))
   \<and> (fcc_cable_available ex_agg \<or> fcc_fiber_available ex_agg \<or> fcc_copper_available ex_agg)"
proof -
  have m: "ex_agg \<in> set (aggregate_by_zcta (concat [ex_resolved]))"
    by (simp add: agg_eval ex_resolved_def ex_agg_def)
  from aggregate_row_has_technology [OF ex_process_all m] ex_process_all m show ?thesis
    by blast
qed

section \<open>The merge stage\<close>


lemma filter_key_unique:
  "distinct (map fst r) \<Longrightarrow> (n, v) \<in> set r \<Longrightarrow> filter (\<lambda>(c, v). c = n) r = [(n, v)]"
proof (induction r)
  case Nil
  then show ?case by simp
next
  case (Cons a r)
  show ?case
  proof (cases "fst a = n")
    case True
    with Cons.prems have "a = (n, v)" by (cases a) (auto simp: image_iff)
    moreover from Cons.prems True have "filter (\<lambda>(c, v). c = n) r = []"
      by (auto simp: filter_empty_conv image_iff)
    ultimately show ?thesis by simp
  next
    case False
    with Cons show ?thesis by (cases a) auto
  qed
qed

lemma select_row:
  "distinct (map fst r) \<Longrightarrow> set sub \<subseteq> set r \<Longrightarrow>
     concat (map (\<lambda>n. filter (\<lambda>(c, v). c = n) r) (map fst sub)) = sub"
proof (induction sub)
  case Nil
  then show ?case by simp
next
  case (Cons a sub)
  obtain n v where a: "a = (n, v)" by (cases a)
  with Cons.prems have "filter (\<lambda>(c, v). c = n) r = [(n, v)]"
    by (intro filter_key_unique) auto
  with Cons a show ?case by simp
qed

lemma filter_name_unique: "distinct cs \<Longrightarrow> n \<in> set cs \<Longrightarrow> filter (\<lambda>c. c = n) cs = [n]"
proof (induction cs)
  case Nil
  then show ?case by simp
next
  case (Cons a cs)
  show ?case
  proof (cases "a = n")
    case True
    with Cons.prems have "filter (\<lambda>c. c = n) cs = []"
      by (auto simp: filter_empty_conv)
    with True show ?thesis by simp
  next
    case False
    with Cons show ?thesis by auto
  qed
qed

lemma select_names:
  "distinct cs \<Longrightarrow> set ns \<subseteq> set cs \<Longrightarrow>
     concat (map (\<lambda>n. filter (\<lambda>c. c = n) cs) ns) = ns"
  by (induction ns) (simp_all add: filter_name_unique)


lemma AGG_COLUMNS_fcc: "c \<in> set AGG_COLUMNS \<Longrightarrow> is_fcc c"
  by (auto simp: AGG_COLUMNS_def is_fcc_def)

lemma distinct_AGG_COLUMNS: "distinct AGG_COLUMNS"
  by (simp add: AGG_COLUMNS_def)

lemma fst_agg_cells: "map fst (agg_cells a) = AGG_COLUMNS"
  by (simp add: agg_cells_def AGG_COLUMNS_def)

lemma fst_null_cells: "map fst null_cells = AGG_COLUMNS"
  by (simp add: null_cells_def comp_def)

lemma matching_cells_keys: "x \<in> set (matching_cells agg r) \<Longrightarrow> map fst x = AGG_COLUMNS"
  by (auto simp: matching_cells_def fst_agg_cells fst_null_cells split: list.splits)

lemma fst_zfill_row: "map fst (zfill_row r) = map fst r"
  by (induction r) (auto simp: zfill_row_def)

lemma fst_kept_row: "map fst (kept_row r) = filter (\<lambda>c. \<not> is_fcc c) (map fst r)"
proof -
  have "map fst (filter (\<lambda>(c, v). \<not> is_fcc c) q) = filter (\<lambda>c. \<not> is_fcc c) (map fst q)" for q :: row
    by (induction q) auto
  then show ?thesis
    by (simp add: kept_row_def fst_zfill_row)
qed

lemma final_order_merged:
  assumes "\<forall>c \<in> set oc. \<not> is_fcc c"
  shows "final_order (oc @ AGG_COLUMNS) =
           take (anchor_pos oc) oc @ AGG_COLUMNS @ drop (anchor_pos oc) oc"
proof -
  have f: "filter is_fcc (oc @ AGG_COLUMNS) = AGG_COLUMNS"
    using assms by (simp add: filter_empty_conv AGG_COLUMNS_fcc)
  have o: "filter (\<lambda>c. \<not> is_fcc c) (oc @ AGG_COLUMNS) = oc"
    using assms by (simp add: filter_empty_conv AGG_COLUMNS_fcc filter_id_conv)
  show ?thesis
    unfolding final_order_def f o by (simp add: anchor_pos_def Let_def)
qed

lemma select_merged_row:
  assumes "distinct (map fst r)" and "\<forall>c \<in> set (map fst r). \<not> is_fcc c"
    and "map fst x = AGG_COLUMNS"
  shows "concat (map (\<lambda>n. filter (\<lambda>(c, v). c = n) (r @ x))
                   (take k (map fst r) @ AGG_COLUMNS @ drop k (map fst r))) =
           take k r @ x @ drop k r"
proof -
  have names: "take k (map fst r) @ AGG_COLUMNS @ drop k (map fst r) =
                 map fst (take k r @ x @ drop k r)"
    by (simp add: assms(3) take_map drop_map)
  have disj: "set (map fst r) \<inter> set (map fst x) = {}"
    using assms(2) AGG_COLUMNS_fcc unfolding assms(3) by blast
  have d: "distinct (map fst (r @ x))"
    using assms(1) disj by (simp add: assms(3) distinct_AGG_COLUMNS)
  have sub: "set (take k r @ x @ drop k r) \<subseteq> set (r @ x)"
    using set_take_subset [of k r] set_drop_subset [of k r] by auto
  show ?thesis
    unfolding names by (rule select_row [OF d sub])
qed

lemma drop_zfill:
  assumes "wf_frame base0"
  shows "drop_columns (filter is_fcc (columns (zfill_zipcode base0))) (zfill_zipcode base0) =
           \<lparr>columns = filter (\<lambda>c. \<not> is_fcc c) (columns base0),
            rows = map kept_row (rows base0)\<rparr>"
proof -
  have c: "filter (\<lambda>c. c \<in> set (columns base0) \<longrightarrow> \<not> is_fcc c) (columns base0) =
             filter (\<lambda>c. \<not> is_fcc c) (columns base0)"
    by (rule filter_cong) auto
  have r: "filter (\<lambda>(c, v). c \<in> set (columns base0) \<longrightarrow> \<not> is_fcc c) (zfill_row r) = kept_row r"
    if "r \<in> set (rows base0)" for r
  proof -
    from that assms have "map fst r = columns base0"
      by (simp add: wf_frame_def list_all_iff)
    then have "fst ` set (zfill_row r) = set (columns base0)"
      by (metis fst_zfill_row set_map)
    then have mem: "fst q \<in> set (columns base0)" if "q \<in> set (zfill_row r)" for q
      using that by blast
    show ?thesis
      unfolding kept_row_def
    proof (rule filter_cong [OF refl])
      fix q assume "q \<in> set (zfill_row r)"
      from mem [OF this]
      show "(case q of (c, v) \<Rightarrow> c \<in> set (columns base0) \<longrightarrow> \<not> is_fcc c) =
          (case q of (c, v) \<Rightarrow> \<not> is_fcc c)"
        by (cases q) simp
    qed
  qed
  show ?thesis
    by (simp add: drop_columns_def zfill_zipcode_def c r)
qed

lemma merge_stage_eq:
  assumes "wf_frame base0"
  shows "merge_stage agg base0 =
     \<lparr>columns = take (anchor_pos (filter (\<lambda>c. \<not> is_fcc c) (columns base0)))
                   (filter (\<lambda>c. \<not> is_fcc c) (columns base0))
                 @ AGG_COLUMNS
                 @ drop (anchor_pos (filter (\<lambda>c. \<not> is_fcc c) (columns base0)))
                     (filter (\<lambda>c. \<not> is_fcc c) (columns base0)),
      rows = concat (map (\<lambda>r. map (\<lambda>x.
                 take (anchor_pos (filter (\<lambda>c. \<not> is_fcc c) (columns base0))) (kept_row r) @ x
                 @ drop (anchor_pos (filter (\<lambda>c. \<not> is_fcc c) (columns base0))) (kept_row r))
               (matching_cells agg (kept_row r))) (rows base0))\<rparr>"
proof -
  define oc where "oc = filter (\<lambda>c. \<not> is_fcc c) (columns base0)"
  define k where "k = anchor_pos oc"
  have oc_nofcc: "\<forall>c \<in> set oc. \<not> is_fcc c"
    by (simp add: oc_def)
  have oc_distinct: "distinct oc"
    using assms by (simp add: oc_def wf_frame_def)
  have fo: "final_order (oc @ AGG_COLUMNS) = take k oc @ AGG_COLUMNS @ drop k oc"
    unfolding k_def by (rule final_order_merged [OF oc_nofcc])
  have d: "distinct (oc @ AGG_COLUMNS)"
    using oc_distinct oc_nofcc AGG_COLUMNS_fcc by (auto simp: distinct_AGG_COLUMNS)
  have sub: "set (take k oc @ AGG_COLUMNS @ drop k oc) \<subseteq> set (oc @ AGG_COLUMNS)"
    using set_take_subset [of k oc] set_drop_subset [of k oc] by auto
  have cols: "concat (map (\<lambda>n. filter (\<lambda>c. c = n) (oc @ AGG_COLUMNS))
                (take k oc @ AGG_COLUMNS @ drop k oc)) = take k oc @ AGG_COLUMNS @ drop k oc"
    by (rule select_names [OF d sub])
  have keys: "map fst (kept_row r) = oc" if "r \<in> set (rows base0)" for r
    using that assms by (simp add: fst_kept_row oc_def wf_frame_def list_all_iff)
  have row: "concat (map (\<lambda>n. filter (\<lambda>(c, v). c = n) (kept_row r @ x))
                (take k oc @ AGG_COLUMNS @ drop k oc)) =
             take k (kept_row r) @ x @ drop k (kept_row r)"
    if "r \<in> set (rows base0)" and "x \<in> set (matching_cells agg (kept_row r))" for r x
  proof -
    have "distinct (map fst (kept_row r))" "\<forall>c \<in> set (map fst (kept_row r)). \<not> is_fcc c"
      using keys [OF that(1)] oc_distinct oc_nofcc by simp_all
    from select_merged_row [OF this matching_cells_keys [OF that(2)], of k]
    show ?thesis by (simp only: keys [OF that(1)])
  qed
  define sel where
    "sel = (\<lambda>r :: row. concat (map (\<lambda>n. filter (\<lambda>(c, v). c = n) r)
               (take k oc @ AGG_COLUMNS @ drop k oc)))"
  have per_row: "map sel (merge_row agg (kept_row r)) =
      map (\<lambda>x. take k (kept_row r) @ x @ drop k (kept_row r)) (matching_cells agg (kept_row r))"
    if "r \<in> set (rows base0)" for r
    unfolding merge_row_def map_map comp_def sel_def
    by (rule map_cong [OF refl]) (rule row [OF that])
  have rows_eq: "map sel (concat (map (merge_row agg) (map kept_row (rows base0)))) =
      concat (map (\<lambda>r. map (\<lambda>x. take k (kept_row r) @ x @ drop k (kept_row r))
               (matching_cells agg (kept_row r))) (rows base0))"
    by (simp add: map_concat comp_def per_row cong: map_cong)
  have "merge_stage agg base0 =
          select_columns (take k oc @ AGG_COLUMNS @ drop k oc)
            \<lparr>columns = oc @ AGG_COLUMNS,
             rows = concat (map (merge_row agg) (map kept_row (rows base0)))\<rparr>"
    by (simp add: merge_stage_def Let_def drop_zfill [OF assms] merge_left_def
          oc_def [symmetric] fo)
  also have "\<dots> = \<lparr>columns = take k oc @ AGG_COLUMNS @ drop k oc,
      rows = map sel (concat (map (merge_row agg) (map kept_row (rows base0))))\<rparr>"
    unfolding select_columns_def sel_def by (simp only: frame.simps cols)
  also note rows_eq
  finally show ?thesis
    by (simp only: k_def oc_def)
qed


lemma take_index_Suc:
  "x \<in> set xs \<Longrightarrow> take (list_index xs x + 1) xs = takeWhile (\<lambda>y. y \<noteq> x) xs @ [x]"
  by (induction xs) (auto simp: list_index_def)

lemma join_and_save_eq:
  assumes "output_csv fs = Some base" and "''zipcode'' \<in> set (columns base)"
  shows "join_and_save agg fs =
           Inr (merge_stage agg base, fs\<lparr>output_csv := Some (merge_stage agg base)\<rparr>)"
  by (simp add: join_and_save_def assms Let_def)

lemma insert_after_not_fcc: "\<not> is_fcc insert_after"
  by (simp add: insert_after_def is_fcc_def)

lemma wf_ex_base: "wf_frame ex_base"
  by (simp add: wf_frame_def ex_base_def)

lemma merge_stage_ex: "merge_stage [ex_agg] ex_base = ex_merged"
  by code_simp


text \<open>
  C8. When the output file holds a well-formed base frame with a ZIP column, the merge
  succeeds; the \<^verbatim>\<open>fcc_\<close> columns of the merged frame are the seven columns of the
  aggregate, the other columns are those of the base frame in their order; when the anchor
  is a column of the base frame, the seven columns stand as one block right behind it, and
  otherwise behind all other columns.
\<close>

theorem fcc_columns_after_anchor:
  assumes "wf_frame base" and "output_csv fs = Some base" and "''zipcode'' \<in> set (columns base)"
  shows "\<exists>merged fs'. join_and_save fcc_agg fs = Inr (merged, fs')
       \<and> filter is_fcc (columns merged) = AGG_COLUMNS
       \<and> filter (\<lambda>c. \<not> is_fcc c) (columns merged) = filter (\<lambda>c. \<not> is_fcc c) (columns base)
       \<and> (insert_after \<in> set (columns base) \<longrightarrow>
            (\<exists>pre post. insert_after \<notin> set pre \<and>
               columns merged = pre @ insert_after # AGG_COLUMNS @ post))
       \<and> (insert_after \<notin> set (columns base) \<longrightarrow>
            columns merged = filter (\<lambda>c. \<not> is_fcc c) (columns base) @ AGG_COLUMNS)"
proof -
  define oc where "oc = filter (\<lambda>c. \<not> is_fcc c) (columns base)"
  define k where "k = anchor_pos oc"
  define merged where "merged = merge_stage fcc_agg base"
  have cols: "columns merged = take k oc @ AGG_COLUMNS @ drop k oc"
    unfolding merged_def k_def oc_def by (simp add: merge_stage_eq [OF assms(1)])
  have nofcc: "filter is_fcc (take k oc) = []" "filter is_fcc (drop k oc) = []"
    using set_take_subset [of k oc] set_drop_subset [of k oc]
    by (auto simp: filter_empty_conv oc_def)
  have allfcc: "filter is_fcc AGG_COLUMNS = AGG_COLUMNS"
    by (simp add: filter_id_conv AGG_COLUMNS_fcc)
  have f: "filter is_fcc (columns merged) = AGG_COLUMNS"
    by (simp add: cols nofcc allfcc)
  have keep: "filter (\<lambda>c. \<not> is_fcc c) (take k oc) = take k oc"
      "filter (\<lambda>c. \<not> is_fcc c) (drop k oc) = drop k oc"
    using set_take_subset [of k oc] set_drop_subset [of k oc]
    by (auto simp: filter_id_conv oc_def)
  have "filter (\<lambda>c. \<not> is_fcc c) AGG_COLUMNS = []"
    by (simp add: filter_empty_conv AGG_COLUMNS_fcc)
  then have o: "filter (\<lambda>c. \<not> is_fcc c) (columns merged) = oc"
    by (simp add: cols keep)
  have a: "\<exists>pre post. insert_after \<notin> set pre \<and>
               columns merged = pre @ insert_after # AGG_COLUMNS @ post"
    if "insert_after \<in> set (columns base)"
  proof -
    from that have mem: "insert_after \<in> set oc"
      by (simp add: oc_def insert_after_not_fcc)
    then have "take k oc = takeWhile (\<lambda>y. y \<noteq> insert_after) oc @ [insert_after]"
      by (simp add: k_def anchor_pos_def take_index_Suc del: One_nat_def)
    then have "columns merged =
        takeWhile (\<lambda>y. y \<noteq> insert_after) oc @ insert_after # AGG_COLUMNS @ drop k oc"
      by (simp add: cols)
    moreover have "insert_after \<notin> set (takeWhile (\<lambda>y. y \<noteq> insert_after) oc)"
      by (auto dest: set_takeWhileD)
    ultimately show ?thesis by blast
  qed
  have b: "columns merged = oc @ AGG_COLUMNS" if "insert_after \<notin> set (columns base)"
  proof -
    from that have "insert_after \<notin> set oc" by (simp add: oc_def)
    then have "k = length oc" by (simp add: k_def anchor_pos_def)
    then show ?thesis by (simp add: cols)
  qed
  have "join_and_save fcc_agg fs = Inr (merged, fs\<lparr>output_csv := Some merged\<rparr>)"
    unfolding merged_def by (rule join_and_save_eq [OF assms(2,3)])
  with f o a b show ?thesis
    unfolding oc_def by blast
qed


theorem fcc_columns_after_anchor_witness:
  "wf_frame ex_base \<and> output_csv ex_fs = Some ex_base \<and> ''zipcode'' \<in> set (columns ex_base)
   \<and> insert_after \<in> set (columns ex_base)
   \<and> join_and_save [ex_agg] ex_fs = Inr (ex_merged, ex_fs\<lparr>output_csv := Some ex_merged\<rparr>)
   \<and> columns ex_merged =
       [''zipcode'', ''borough'', ''neighborhood''] @ insert_after # AGG_COLUMNS @ [''avg_rate'']
   \<and> (\<exists>pre post. insert_after \<notin> set pre \<and>
         columns ex_merged = pre @ insert_after # AGG_COLUMNS @ post)
   \<and> wf_frame ex_plain \<and> insert_after \<notin> set (columns ex_plain)
   \<and> columns (merge_stage [ex_agg] ex_plain) = [''zipcode'', ''avg_rate''] @ AGG_COLUMNS"
proof -
  have o: "output_csv ex_fs = Some ex_base" by (simp add: ex_fs_def)
  have z: "''zipcode'' \<in> set (columns ex_base)" by (simp add: ex_base_def)
  have i: "insert_after \<in> set (columns ex_base)" by (simp add: ex_base_def insert_after_def)
  have j: "join_and_save [ex_agg] ex_fs = Inr (ex_merged, ex_fs\<lparr>output_csv := Some ex_merged\<rparr>)"
    by (simp add: join_and_save_eq [OF o z] merge_stage_ex)
  have c: "columns ex_merged =
       [''zipcode'', ''borough'', ''neighborhood''] @ insert_after # AGG_COLUMNS @ [''avg_rate'']"
    by (simp add: ex_merged_def insert_after_def AGG_COLUMNS_def)
  have wp: "wf_frame ex_plain" by (simp add: wf_frame_def ex_plain_def)
  have op: "output_csv (ex_fs\<lparr>output_csv := Some ex_plain\<rparr>) = Some ex_plain" by simp
  have zp: "''zipcode'' \<in> set (columns ex_plain)" by (simp add: ex_plain_def)
  have ip: "insert_after \<notin> set (columns ex_plain)" by (simp add: ex_plain_def insert_after_def)
  have np: "filter (\<lambda>c. \<not> is_fcc c) (columns ex_plain) = [''zipcode'', ''avg_rate'']"
    by (simp add: ex_plain_def is_fcc_def)
  from fcc_columns_after_anchor [OF wp op zp, of "[ex_agg]"] ip
  have p: "columns (merge_stage [ex_agg] ex_plain) = [''zipcode'', ''avg_rate''] @ AGG_COLUMNS"
    by (auto simp: join_and_save_eq [OF op zp] np)
  from fcc_columns_after_anchor [OF wf_ex_base o z, of "[ex_agg]"] wf_ex_base o z i j c
  have "\<exists>pre post. insert_after \<notin> set pre \<and>
         columns ex_merged = pre @ insert_after # AGG_COLUMNS @ post"
    by auto
  with wf_ex_base o z i j c wp ip p show ?thesis by simp
qed


section \<open>Runs of main without data\<close>

text \<open>
  C7. Let the crosswalk exist. If every technology file is missing or contributes no
  resolved row, \<^verbatim>\<open>main\<close> returns normally without calling the merge: the file system it
  leaves differs from the initial one only by the logged warnings and the final error, so
  the output file is as it was. A missing technology file is logged as a warning in every
  run. As soon as some file contributes resolved rows, the run goes on to the merge with
  the aggregate of the files that exist.
\<close>

theorem main_without_data:
  assumes "crosswalk_json fs = Some tm"
  shows "((\<forall>(t, p) \<in> set FCC_FILES. fcc_csv fs p = None \<or>
             (\<exists>src. fcc_csv fs p = Some src \<and> process_fcc_file src t tm = [])) \<longrightarrow>
            main fs = (Inr (), fs\<lparr>logged := logged fs @ map LogWarning (missing_techs FCC_FILES fs)
                                      @ [LogError ''No FCC data processed'']\<rparr>)
            \<and> output_csv (snd (main fs)) = output_csv fs)
       \<and> (\<forall>(t, p) \<in> set FCC_FILES. fcc_csv fs p = None \<longrightarrow>
            LogWarning t \<in> set (logged (snd (main fs))))
       \<and> (present_frames tm FCC_FILES fs \<noteq> [] \<longrightarrow>
            main fs =
              (let fs1 = fs\<lparr>logged := logged fs @ map LogWarning (missing_techs FCC_FILES fs)\<rparr>
               in case join_and_save (aggregate_by_zcta (concat (present_frames tm FCC_FILES fs))) fs1 of
                    Inl e \<Rightarrow> (Inl e, fs1)
                  | Inr (merged, fs2) \<Rightarrow>
                      if set SUMMARY_COLUMNS \<subseteq> set (columns merged) then (Inr (), fs2)
                      else (Inl KeyError, fs2)))"
proof (intro conjI impI)
  assume "\<forall>(t, p) \<in> set FCC_FILES. fcc_csv fs p = None \<or>
             (\<exists>src. fcc_csv fs p = Some src \<and> process_fcc_file src t tm = [])"
  then have e: "present_frames tm FCC_FILES fs = []"
    by (simp only: present_frames_empty_iff)
  show m: "main fs = (Inr (), fs\<lparr>logged := logged fs @ map LogWarning (missing_techs FCC_FILES fs)
                                      @ [LogError ''No FCC data processed'']\<rparr>)"
    by (simp add: main_def load_tract_zcta_map_def assms process_all_eq e)
  show "output_csv (snd (main fs)) = output_csv fs"
    by (simp add: m)
next
  assume ne: "present_frames tm FCC_FILES fs \<noteq> []"
  show "main fs =
              (let fs1 = fs\<lparr>logged := logged fs @ map LogWarning (missing_techs FCC_FILES fs)\<rparr>
               in case join_and_save (aggregate_by_zcta (concat (present_frames tm FCC_FILES fs))) fs1 of
                    Inl e \<Rightarrow> (Inl e, fs1)
                  | Inr (merged, fs2) \<Rightarrow>
                      if set SUMMARY_COLUMNS \<subseteq> set (columns merged) then (Inr (), fs2)
                      else (Inl KeyError, fs2))"
    by (simp add: main_def load_tract_zcta_map_def assms process_all_eq ne Let_def)
next
  have w: "set (map LogWarning (missing_techs FCC_FILES fs)) \<subseteq> set (logged (snd (main fs)))"
    by (auto simp: main_def load_tract_zcta_map_def assms process_all_eq Let_def join_and_save_def
          split: sum.splits option.splits if_splits prod.splits)
  show "\<forall>(t, p) \<in> set FCC_FILES. fcc_csv fs p = None \<longrightarrow> LogWarning t \<in> set (logged (snd (main fs)))"
  proof (clarify)
    fix t p assume "(t, p) \<in> set FCC_FILES" "fcc_csv fs p = None"
    then have "t \<in> set (missing_techs FCC_FILES fs)"
      by (force simp: missing_techs_def)
    with w show "LogWarning t \<in> set (logged (snd (main fs)))" by auto
  qed
qed

lemma ex_aggregate: "aggregate_by_zcta ex_resolved = [ex_agg]"
  by (simp add: agg_eval ex_resolved_def ex_agg_def)

theorem main_without_data_witness:
  "crosswalk_json ex_fs_nodata = Some ex_tract_map
   \<and> main ex_fs_nodata =
       (Inr (), ex_fs_nodata\<lparr>logged := [LogWarning ''fiber'', LogWarning ''copper'',
                                        LogError ''No FCC data processed'']\<rparr>)
   \<and> output_csv (snd (main ex_fs_nodata)) = Some ex_base
   \<and> LogWarning ''fiber'' \<in> set (logged (snd (main ex_fs)))
   \<and> main ex_fs =
       (Inr (), ex_fs\<lparr>logged := [LogWarning ''fiber'', LogWarning ''copper''],
                       output_csv := Some ex_merged\<rparr>)"
proof -
  have c1: "crosswalk_json ex_fs_nodata = Some ex_tract_map"
    and c2: "crosswalk_json ex_fs = Some ex_tract_map"
    by (simp_all add: ex_fs_nodata_def ex_fs_def)
  have none: "\<forall>(t, p) \<in> set FCC_FILES. fcc_csv ex_fs_nodata p = None \<or>
      (\<exists>src. fcc_csv ex_fs_nodata p = Some src \<and> process_fcc_file src t ex_tract_map = [])"
    by (simp add: FCC_FILES_def ex_fs_nodata_def process_fcc_file_eq ex_eval)
  have miss1: "missing_techs FCC_FILES ex_fs_nodata = [''fiber'', ''copper'']"
    and miss2: "missing_techs FCC_FILES ex_fs = [''fiber'', ''copper'']"
    by (simp_all add: missing_techs_def FCC_FILES_def ex_fs_nodata_def ex_fs_def)
  have pres: "present_frames ex_tract_map FCC_FILES ex_fs = [ex_resolved]"
    using ex_process_all by (simp add: process_all_eq)
  have o: "output_csv (ex_fs\<lparr>logged := [LogWarning ''fiber'', LogWarning ''copper'']\<rparr>) = Some ex_base"
    by (simp add: ex_fs_def)
  have z: "''zipcode'' \<in> set (columns ex_base)" by (simp add: ex_base_def)
  have j: "join_and_save [ex_agg] (ex_fs\<lparr>logged := [LogWarning ''fiber'', LogWarning ''copper'']\<rparr>) =
      Inr (ex_merged, ex_fs\<lparr>logged := [LogWarning ''fiber'', LogWarning ''copper''],
                            output_csv := Some ex_merged\<rparr>)"
    by (simp add: join_and_save_eq [OF o z] merge_stage_ex)
  have s: "set SUMMARY_COLUMNS \<subseteq> set (columns ex_merged)"
    by (simp add: SUMMARY_COLUMNS_def ex_merged_def)
  have l: "logged ex_fs = []" "logged ex_fs_nodata = []" "output_csv ex_fs_nodata = Some ex_base"
    by (simp_all add: ex_fs_def ex_fs_nodata_def)
  have f: "(''fiber'', ''requested/bdc_36_FibertothePremises_fixed_broadband_J25_17feb2026.csv'')
      \<in> set FCC_FILES"
    "fcc_csv ex_fs ''requested/bdc_36_FibertothePremises_fixed_broadband_J25_17feb2026.csv'' = None"
    by (simp_all add: FCC_FILES_def ex_fs_def)
  from main_without_data [OF c1] none
  have a: "main ex_fs_nodata =
       (Inr (), ex_fs_nodata\<lparr>logged := [LogWarning ''fiber'', LogWarning ''copper'',
                                        LogError ''No FCC data processed'']\<rparr>)"
    "output_csv (snd (main ex_fs_nodata)) = Some ex_base"
    by (simp_all add: miss1 l)
  from main_without_data [OF c2, THEN conjunct2, THEN conjunct1] f
  have b: "LogWarning ''fiber'' \<in> set (logged (snd (main ex_fs)))"
    by (auto dest!: bspec)
  from main_without_data [OF c2]
  have c: "main ex_fs =
       (Inr (), ex_fs\<lparr>logged := [LogWarning ''fiber'', LogWarning ''copper''],
                       output_csv := Some ex_merged\<rparr>)"
    by (simp add: pres miss2 l ex_aggregate j s)
  from c1 a b c show ?thesis by simp
qed

section \<open>Left join and idempotence of the merge stage\<close>




















lemma zfill_row_append: "zfill_row (a @ b) = zfill_row a @ zfill_row b"
  by (simp add: zfill_row_def)





end
